theory Spec2Isabelle
  imports Complex_Main
begin

text \<open>
  A model of the action \<open>wait-for-vercel-preview\<close> (\<open>action.js\<close>, in the revision whose
  \<open>waitForDeploymentToStart\<close> resolves the preview addresses through the platform's
  project listing): the retry budget, the bypass token fetcher, the two pollers and
  \<open>run\<close>. The network, the URL constructor and the event that triggered the run are
  inputs of the model; what the action does is returned as a list of events.
\<close>

section \<open>JavaScript numbers\<close>

text \<open>
  The action computes with JavaScript numbers: the inputs \<open>max_timeout\<close> and
  \<open>check_interval\<close> go through \<open>Number(...)\<close>, which yields \<open>NaN\<close> for a text
  that is not numeric, and the iteration count is a quotient, which is infinite when
  the divisor is zero. A number is therefore \<open>NaN\<close>, an infinity or a finite value.
  Finite values are exact rationals: rounding, overflow and the sign of zero are not
  modelled (\<open>Finite 0\<close> is \<open>+0\<close>).
\<close>

datatype number = NaN | NegInfinity | Finite rat | Infinity

text \<open>The operator \<open>/\<close>.\<close>

fun js_div :: "number \<Rightarrow> number \<Rightarrow> number" where
  "js_div (Finite a) (Finite b) =
     (if b = 0 then (if a = 0 then NaN else if 0 < a then Infinity else NegInfinity)
      else Finite (a / b))"
| "js_div (Finite a) Infinity = Finite 0"
| "js_div (Finite a) NegInfinity = Finite 0"
| "js_div Infinity (Finite b) = (if 0 \<le> b then Infinity else NegInfinity)"
| "js_div NegInfinity (Finite b) = (if 0 \<le> b then NegInfinity else Infinity)"
| "js_div _ _ = NaN"

text \<open>The operator \<open>*\<close>.\<close>

fun js_mul :: "number \<Rightarrow> number \<Rightarrow> number" where
  "js_mul (Finite a) (Finite b) = Finite (a * b)"
| "js_mul NaN _ = NaN"
| "js_mul _ NaN = NaN"
| "js_mul (Finite a) Infinity =
     (if a = 0 then NaN else if 0 < a then Infinity else NegInfinity)"
| "js_mul (Finite a) NegInfinity =
     (if a = 0 then NaN else if 0 < a then NegInfinity else Infinity)"
| "js_mul Infinity (Finite b) =
     (if b = 0 then NaN else if 0 < b then Infinity else NegInfinity)"
| "js_mul NegInfinity (Finite b) =
     (if b = 0 then NaN else if 0 < b then NegInfinity else Infinity)"
| "js_mul Infinity Infinity = Infinity"
| "js_mul NegInfinity NegInfinity = Infinity"
| "js_mul Infinity NegInfinity = NegInfinity"
| "js_mul NegInfinity Infinity = NegInfinity"

text \<open>\<open>Math.floor\<close>.\<close>

fun Math_floor :: "number \<Rightarrow> number" where
  "Math_floor (Finite a) = Finite (of_int \<lfloor>a\<rfloor>)"
| "Math_floor x = x"

text \<open>The operator \<open><\<close>: every comparison with \<open>NaN\<close> is false.\<close>

fun js_lt :: "number \<Rightarrow> number \<Rightarrow> bool" where
  "js_lt (Finite a) (Finite b) = (a < b)"
| "js_lt (Finite a) Infinity = True"
| "js_lt NegInfinity (Finite b) = True"
| "js_lt NegInfinity Infinity = True"
| "js_lt _ _ = False"

text \<open>Truthiness of a number: \<open>0\<close> and \<open>NaN\<close> are falsy, every other number is truthy.\<close>

fun truthy :: "number \<Rightarrow> bool" where
  "truthy NaN = False"
| "truthy (Finite a) = (a \<noteq> 0)"
| "truthy _ = True"

text \<open>The operator \<open>||\<close> on numbers: the left operand when it is truthy, else the right one.\<close>

definition js_or :: "number \<Rightarrow> number \<Rightarrow> number" where
  "js_or a b = (if truthy a then a else b)"

section \<open>The retry budget\<close>

text \<open>
  \<^verbatim>\<open>
  const calculateIterations = (maxTimeoutSec, checkIntervalInMilliseconds) =>
    Math.floor(maxTimeoutSec / (checkIntervalInMilliseconds / 1000));
  \<close>
\<close>

definition calculateIterations :: "number \<Rightarrow> number \<Rightarrow> number" where
  "calculateIterations maxTimeoutSec checkIntervalInMilliseconds =
     Math_floor (js_div maxTimeoutSec (js_div checkIntervalInMilliseconds (Finite 1000)))"

text \<open>
  The loops of the pollers are \<open>for (let i = 0; i < iterations; i++)\<close>. The counter is
  a natural number; \<open>loop_continues iterations i\<close> is the loop test \<open>i < iterations\<close>.
\<close>

definition loop_continues :: "number \<Rightarrow> nat \<Rightarrow> bool" where
  "loop_continues iterations i = js_lt (Finite (of_nat i)) iterations"

section \<open>Effects and the HTTP client\<close>

text \<open>
  What the action does to the outside world is recorded as a list of events, in the
  order of the calls: the requests it sends (to a web address, or to the source-control
  API for a pull request), \<open>wait(ms)\<close>, \<open>core.setOutput\<close> and \<open>core.setFailed\<close>.
  Console output is not recorded. A \<open>url\<close> of \<open>None\<close> is JavaScript's \<open>undefined\<close>.
\<close>

record resolved_target =
  url :: "string option"
  name :: string

datatype output_value = Text string | Targets "resolved_target list"

datatype event =
    HttpGet string "(string \<times> string) list"
  | HttpPost string "(string \<times> string) list"
  | Wait number
  | GetPullRequest nat
  | SetOutput string output_value
  | SetFailed string

text \<open>
  A cookie as \<open>set-cookie-parser\<close> returns it; a response as \<open>axios\<close> hands it over:
  its status and its \<open>set-cookie\<close> header. The header is \<open>None\<close> when
  \<open>response.headers['set-cookie']\<close> is falsy (absent), and otherwise the cookies that
  \<open>setCookieParser\<close> returns for it, in the parser's order.
\<close>

record cookie =
  cookie_name :: string
  cookie_value :: string

record response =
  status :: nat
  set_cookie :: "cookie list option"

text \<open>
  What the network does with one request: no response arrives, or one does (for a
  request that follows redirects, the last one).
\<close>

datatype exchange = NoResponse | Responded response

text \<open>
  What a \<open>catch\<close> block can receive: the two errors of \<open>axios\<close> that the handler
  tells apart (\<open>e.response\<close> is set; only \<open>e.request\<close> is set) and any other error,
  with its message.
\<close>

datatype exn = AxiosResponseError nat | AxiosRequestError | Error string

text \<open>
  \<open>axios\<close> resolves with the response when \<open>validateStatus(status)\<close> holds and
  rejects with an error that carries the response otherwise; with no response it
  rejects with an error that carries the request only. A call that gives no
  \<open>validateStatus\<close> gets the library's default, \<open>status >= 200 && status < 300\<close>.
\<close>

definition axios :: "(nat \<Rightarrow> bool) \<Rightarrow> exchange \<Rightarrow> exn + response" where
  "axios validateStatus x =
     (case x of
        NoResponse \<Rightarrow> Inl AxiosRequestError
      | Responded r \<Rightarrow>
          if validateStatus (status r) then Inr r else Inl (AxiosResponseError (status r)))"

definition axios_default_validateStatus :: "nat \<Rightarrow> bool" where
  "axios_default_validateStatus st = (200 \<le> st \<and> st < 300)"

section \<open>The bypass token fetcher\<close>

text \<open>
  \<^verbatim>\<open>
  const getPassword = async ({ url, vercelPassword }) => {
    const data = new URLSearchParams();
    data.append('_vercel_password', vercelPassword);
    const response = await axios({
      url, method: 'post', data: data.toString(),
      headers: { 'content-type': 'application/x-www-form-urlencoded' },
      maxRedirects: 0,
      validateStatus: (status) => { return status >= 200 && status < 307; },
    });
    const setCookieHeader = response.headers['set-cookie'];
    if (!setCookieHeader) { throw new Error('no vercel JWT in response'); }
    const cookies = setCookieParser(setCookieHeader);
    const vercelJwtCookie = cookies.find((cookie) => cookie.name === '_vercel_jwt');
    if (!vercelJwtCookie || !vercelJwtCookie.value) {
      throw new Error('no vercel JWT in response');
    }
    return vercelJwtCookie.value;
  };
  \<close>
  The function takes the exchange that its one request meets and returns the events
  and either the error thrown or the token. The event of the request carries the form
  fields, not their encoding.
\<close>

definition getPassword_validateStatus :: "nat \<Rightarrow> bool" where
  "getPassword_validateStatus st = (200 \<le> st \<and> st < 307)"

definition getPassword :: "string \<Rightarrow> string \<Rightarrow> exchange \<Rightarrow> event list \<times> (exn + string)" where
  "getPassword url' vercelPassword x =
     ([HttpPost url' [(''_vercel_password'', vercelPassword)]],
      (case axios getPassword_validateStatus x of
         Inl e \<Rightarrow> Inl e
       | Inr response \<Rightarrow>
           (case set_cookie response of
              None \<Rightarrow> Inl (Error ''no vercel JWT in response'')
            | Some cookies \<Rightarrow>
                (case find (\<lambda>cookie. cookie_name cookie = ''_vercel_jwt'') cookies of
                   None \<Rightarrow> Inl (Error ''no vercel JWT in response'')
                 | Some vercelJwtCookie \<Rightarrow>
                     if cookie_value vercelJwtCookie = []
                     then Inl (Error ''no vercel JWT in response'')
                     else Inr (cookie_value vercelJwtCookie)))))"

section \<open>The URL health poller\<close>

text \<open>
  One pass through the \<open>try\<close> block of \<open>waitForUrl\<close>:
  \<^verbatim>\<open>
      let headers = {};
      if (vercelPassword) {
        const jwt = await getPassword({ url, vercelPassword });
        headers = { Cookie: `_vercel_jwt=${jwt}` };
        core.setOutput('vercel_jwt', jwt);
      }
      let checkUri = new URL(path, url);
      if (!checkUri) return
      await axios.get(checkUri.toString(), { headers });
      console.log('Received success status code');
      return;
  \<close>
  \<open>new_URL path url\<close> stands for the constructor \<open>new URL(path, url)\<close> followed by
  \<open>toString()\<close>: \<open>None\<close> when the constructor throws its \<open>TypeError\<close>, the
  resolved address otherwise. The constructor never returns a falsy value, so the
  \<open>return\<close> guarded by \<open>!checkUri\<close> is never taken. Each attempt meets the exchanges
  of its own two requests.
\<close>

record url_attempt =
  post_exchange :: exchange
  get_exchange :: exchange

definition waitForUrl_try ::
  "(string \<Rightarrow> string \<Rightarrow> string option) \<Rightarrow> string \<Rightarrow> string \<Rightarrow> string \<Rightarrow> url_attempt
     \<Rightarrow> event list \<times> (exn + unit)" where
  "waitForUrl_try new_URL url' vercelPassword path x =
     (case (if vercelPassword \<noteq> []
            then (case getPassword url' vercelPassword (post_exchange x) of
                    (evs, Inl e) \<Rightarrow> (evs, Inl e)
                  | (evs, Inr jwt) \<Rightarrow>
                      (evs @ [SetOutput ''vercel_jwt'' (Text jwt)],
                       Inr [(''Cookie'', ''_vercel_jwt='' @ jwt)]))
            else ([], Inr [])) of
        (evs, Inl e) \<Rightarrow> (evs, Inl e)
      | (evs, Inr headers) \<Rightarrow>
          (case new_URL path url' of
             None \<Rightarrow> (evs, Inl (Error ''Invalid URL''))
           | Some checkUri \<Rightarrow>
               (case axios axios_default_validateStatus (get_exchange x) of
                  Inl e \<Rightarrow> (evs @ [HttpGet checkUri headers], Inl e)
                | Inr _ \<Rightarrow> (evs @ [HttpGet checkUri headers], Inr ()))))"

text \<open>
  The loop of \<open>waitForUrl\<close>, from attempt \<open>i\<close> on, with the events so far:
  \<^verbatim>\<open>
  for (let i = 0; i < iterations; i++) {
    try { ... return; }
    catch (e) { ...console.log...; await wait(checkIntervalInMilliseconds); }
  }
  core.setFailed(`Timeout reached: Unable to connect to ${url}`);
  \<close>
  With an infinite number of iterations the loop need not end: the result is \<open>None\<close>
  when the function never returns, and the events of the whole call otherwise.
\<close>

partial_function (option) waitForUrl_loop ::
  "(string \<Rightarrow> string \<Rightarrow> string option) \<Rightarrow> (nat \<Rightarrow> url_attempt) \<Rightarrow> string \<Rightarrow> number
     \<Rightarrow> string \<Rightarrow> string \<Rightarrow> number \<Rightarrow> nat \<Rightarrow> event list \<Rightarrow> event list option" where
  "waitForUrl_loop new_URL env url' checkIntervalInMilliseconds vercelPassword path iterations i tr =
     (if loop_continues iterations i then
        (case waitForUrl_try new_URL url' vercelPassword path (env i) of
           (evs, Inr _) \<Rightarrow> Some (tr @ evs)
         | (evs, Inl e) \<Rightarrow>
             waitForUrl_loop new_URL env url' checkIntervalInMilliseconds vercelPassword path
               iterations (Suc i) (tr @ evs @ [Wait checkIntervalInMilliseconds]))
      else Some (tr @ [SetFailed (''Timeout reached: Unable to connect to '' @ url')]))"

definition waitForUrl ::
  "(string \<Rightarrow> string \<Rightarrow> string option) \<Rightarrow> (nat \<Rightarrow> url_attempt) \<Rightarrow> string \<Rightarrow> number
     \<Rightarrow> number \<Rightarrow> string \<Rightarrow> string \<Rightarrow> event list option" where
  "waitForUrl new_URL env url' maxTimeout checkIntervalInMilliseconds vercelPassword path =
     waitForUrl_loop new_URL env url' checkIntervalInMilliseconds vercelPassword path
       (calculateIterations maxTimeout checkIntervalInMilliseconds) 0 []"

section \<open>The deployment resolution poller\<close>

text \<open>
  The two listings of the platform, with the fields the action reads: a deployment of
  \<open>/v6/deployments\<close> has a name and a state; a project of \<open>/v9/projects\<close> has its
  \<open>latestDeployments\<close>, each with a name, \<open>meta.githubCommitSha\<close> (\<open>None\<close> when the
  field is undefined) and \<open>automaticAliases\<close>.
\<close>

record deployment =
  dep_name :: string
  state :: string

record latest_deployment =
  ld_name :: string
  githubCommitSha :: "string option"
  automaticAliases :: "string list"

record project =
  latestDeployments :: "latest_deployment list"

text \<open>
  What one attempt meets: the result of each of its two calls, \<open>None\<close> when the call,
  or reading the fields of its answer, throws.
\<close>

record deploy_attempt =
  deployments_call :: "deployment list option"
  projects_call :: "project list option"

text \<open>
  The test of \<open>some\<close> and \<open>filter\<close>:
  \<^verbatim>\<open>d => d.state === 'QUEUED' || d.state === 'BUILDING' || d.state === 'INITIALIZING'\<close>
\<close>

definition in_progress :: "deployment \<Rightarrow> bool" where
  "in_progress d = (state d = ''QUEUED'' \<or> state d = ''BUILDING'' \<or> state d = ''INITIALIZING'')"

text \<open>
  \<^verbatim>\<open>
  const toAdd = {
    url: deployment.automaticAliases[deployment.automaticAliases.length - 1],
    name: deployment.name,
  }
  \<close>
  Index \<open>-1\<close> of an empty array is \<open>undefined\<close>.
\<close>

definition toAdd :: "latest_deployment \<Rightarrow> resolved_target" where
  "toAdd deployment =
     \<lparr>url = (if automaticAliases deployment = [] then None
             else Some (last (automaticAliases deployment))),
      name = ld_name deployment\<rparr>"

text \<open>
  \<^verbatim>\<open>
  const latestDeployments = vercelProjects.data.projects.map(d => d.latestDeployments)
  const finalLinks = []
  latestDeployments.forEach(projectDeployments => {
    projectDeployments.forEach(deployment => {
      if (deployment.meta.githubCommitSha === sha) { ...; finalLinks.push(toAdd) }
    })
  })
  \<close>
\<close>

definition finalLinks :: "string \<Rightarrow> project list \<Rightarrow> resolved_target list" where
  "finalLinks sha projects =
     concat (map (\<lambda>projectDeployments.
                    map toAdd (filter (\<lambda>deployment. githubCommitSha deployment = Some sha)
                                 projectDeployments))
               (map latestDeployments projects))"

text \<open>
  How one pass through the \<open>try\<close> block ends: with \<open>return finalLinks\<close>, at its last
  statement (the \<open>else\<close> branch, after its \<open>wait\<close>), or in the \<open>catch\<close> block.
\<close>

datatype try_end = Returned "resolved_target list" | Completed | Caught

definition deployments_url :: string where
  "deployments_url = ''https://api.vercel.com/v6/deployments?teamId=coprime''"

definition projects_url :: string where
  "projects_url = ''https://api.vercel.com/v9/projects?teamId=coprime''"

definition waitForDeploymentToStart_try ::
  "string \<Rightarrow> number \<Rightarrow> string \<Rightarrow> deploy_attempt \<Rightarrow> event list \<times> try_end" where
  "waitForDeploymentToStart_try sha checkIntervalInMilliseconds VERCEL_TOKEN x =
     (let headers = [(''Authorization'', ''Bearer '' @ VERCEL_TOKEN)] in
      case deployments_call x of
        None \<Rightarrow> ([HttpGet deployments_url headers], Caught)
      | Some deployments \<Rightarrow>
          (let hasQueuedDeployments = list_ex in_progress deployments in
           case projects_call x of
             None \<Rightarrow> ([HttpGet deployments_url headers, HttpGet projects_url headers], Caught)
           | Some projects \<Rightarrow>
               if \<not> hasQueuedDeployments
               then ([HttpGet deployments_url headers, HttpGet projects_url headers],
                     Returned (finalLinks sha projects))
               else ([HttpGet deployments_url headers, HttpGet projects_url headers,
                      Wait checkIntervalInMilliseconds], Completed)))"

text \<open>
  The loop of \<open>waitForDeploymentToStart\<close>, from attempt \<open>i\<close> on:
  \<^verbatim>\<open>
  for (let i = 0; i < iterations; i++) {
    try { ... if (!hasQueuedDeployments) return finalLinks
          else { console.log(...); await wait(checkIntervalInMilliseconds); } }
    catch (e) { console.error('error in vercel call', e) }
    await wait(checkIntervalInMilliseconds);
  }
  return null;
  \<close>
  The value is \<open>None\<close> when the function never returns; otherwise what it returns
  (\<open>None\<close> for \<open>null\<close>) and the events.
\<close>

partial_function (option) waitForDeploymentToStart_loop ::
  "(nat \<Rightarrow> deploy_attempt) \<Rightarrow> string \<Rightarrow> number \<Rightarrow> string \<Rightarrow> number \<Rightarrow> nat \<Rightarrow> event list
     \<Rightarrow> (resolved_target list option \<times> event list) option" where
  "waitForDeploymentToStart_loop env sha checkIntervalInMilliseconds VERCEL_TOKEN iterations i tr =
     (if loop_continues iterations i then
        (case waitForDeploymentToStart_try sha checkIntervalInMilliseconds VERCEL_TOKEN (env i) of
           (evs, Returned links) \<Rightarrow> Some (Some links, tr @ evs)
         | (evs, _) \<Rightarrow>
             waitForDeploymentToStart_loop env sha checkIntervalInMilliseconds VERCEL_TOKEN
               iterations (Suc i) (tr @ evs @ [Wait checkIntervalInMilliseconds]))
      else Some (None, tr))"

definition waitForDeploymentToStart ::
  "(nat \<Rightarrow> deploy_attempt) \<Rightarrow> string \<Rightarrow> number \<Rightarrow> number \<Rightarrow> string
     \<Rightarrow> (resolved_target list option \<times> event list) option" where
  "waitForDeploymentToStart env sha maxTimeout checkIntervalInMilliseconds VERCEL_TOKEN =
     waitForDeploymentToStart_loop env sha checkIntervalInMilliseconds VERCEL_TOKEN
       (calculateIterations maxTimeout checkIntervalInMilliseconds) 0 []"

section \<open>The orchestrator\<close>

text \<open>
  The inputs of the step, as \<open>core.getInput\<close> returns them (the empty text for an
  input that is not set); \<open>max_timeout\<close> and \<open>check_interval\<close> are the values of
  \<open>Number(core.getInput(...))\<close>: \<open>Finite 0\<close> for the empty text, \<open>NaN\<close> for a text
  that is not numeric.
\<close>

record inputs =
  token :: string
  vercel_password :: string
  vercel_token :: string
  max_timeout :: number
  path_input :: string
  check_interval :: number

text \<open>
  \<^verbatim>\<open>
  const MAX_TIMEOUT = Number(core.getInput('max_timeout')) || 720;
  const PATH = core.getInput('path') || '/';
  const CHECK_INTERVAL_IN_MS = (Number(core.getInput('check_interval')) || 2) * 1000;
  \<close>
\<close>

definition MAX_TIMEOUT :: "inputs \<Rightarrow> number" where
  "MAX_TIMEOUT inp = js_or (max_timeout inp) (Finite 720)"

definition PATH :: "inputs \<Rightarrow> string" where
  "PATH inp = (if path_input inp \<noteq> [] then path_input inp else ''/'')"

definition CHECK_INTERVAL_IN_MS :: "inputs \<Rightarrow> number" where
  "CHECK_INTERVAL_IN_MS inp = js_mul (js_or (check_interval inp) (Finite 2)) (Finite 1000)"

text \<open>
  The event that triggered the run: the number of \<open>payload.pull_request\<close> when the
  payload has one (\<open>0\<close> when that number is missing), \<open>context.sha\<close> (empty when
  unset), and what the pull-request lookup answers: it throws, or it returns a status
  and \<open>data.head.sha\<close>. \<open>PullsThrows\<close> carries the message of the error.
\<close>

datatype pulls_get = PullsThrows string | PullsResponse nat string

record github_context =
  pull_request :: "nat option"
  context_sha :: string
  pulls_answer :: pulls_get

text \<open>
  \<^verbatim>\<open>
  async function getShaForPullRequest({ octokit, owner, repo, number }) {
    const PR_NUMBER = github.context.payload.pull_request.number;
    if (!PR_NUMBER) { core.setFailed('No pull request number was found'); return; }
    const currentPR = await octokit.rest.pulls.get({ owner, repo, pull_number: PR_NUMBER });
    if (currentPR.status !== 200) {
      core.setFailed('Could not get information about the current pull request');
      return;
    }
    const prSHA = currentPR.data.head.sha;
    return prSHA;
  }
  \<close>
  The result is the message of the error thrown, or the value returned (\<open>None\<close> for
  \<open>undefined\<close>).
\<close>

definition getShaForPullRequest :: "nat \<Rightarrow> pulls_get \<Rightarrow> event list \<times> (string + string option)" where
  "getShaForPullRequest PR_NUMBER answer =
     (if PR_NUMBER = 0 then ([SetFailed ''No pull request number was found''], Inr None)
      else (case answer of
              PullsThrows msg \<Rightarrow> ([GetPullRequest PR_NUMBER], Inl msg)
            | PullsResponse st prSHA \<Rightarrow>
                if st \<noteq> 200
                then ([GetPullRequest PR_NUMBER,
                       SetFailed ''Could not get information about the current pull request''],
                      Inr None)
                else ([GetPullRequest PR_NUMBER], Inr (Some prSHA))))"

text \<open>
  A call of \<open>waitForUrl\<close> that \<open>run\<close> starts. The calls are started one after the
  other without being awaited, so \<open>run\<close> ends before they do and their events are not
  part of its own.
\<close>

record waitForUrl_call =
  call_url :: string
  call_maxTimeout :: number
  call_checkIntervalInMilliseconds :: number
  call_vercelPassword :: string
  call_path :: string

record run_result =
  events :: "event list"
  started :: "waitForUrl_call list"

text \<open>
  The tail of \<open>run\<close>, from the value that \<open>waitForDeploymentToStart\<close> returned:
  \<^verbatim>\<open>
    if (!urls) { core.setFailed('no vercel deployment found, exiting...'); return; }
    console.log('urls', urls)
    core.setOutput('urls', urls);
    urls.map(d=> d.url).forEach(async (url, i) => {
     await waitForUrl({ url: `https://${url}`, maxTimeout: MAX_TIMEOUT,
      checkIntervalInMilliseconds: CHECK_INTERVAL_IN_MS,
      vercelPassword: VERCEL_PASSWORD, path: PATH });
    })
  \<close>
  \<open>urls\<close> is \<open>null\<close> (here \<open>None\<close>) or an array; \<open>!urls\<close> holds for \<open>null\<close> only,
  since every array is truthy, the empty one too. An \<open>undefined\<close> in a template
  literal prints as the text \<open>undefined\<close>.
\<close>

definition run_urls :: "inputs \<Rightarrow> resolved_target list option \<Rightarrow> run_result" where
  "run_urls inp urls =
     (case urls of
        None \<Rightarrow> \<lparr>events = [SetFailed ''no vercel deployment found, exiting...''], started = []\<rparr>
      | Some links \<Rightarrow>
          \<lparr>events = [SetOutput ''urls'' (Targets links)],
           started =
             map (\<lambda>u. \<lparr>call_url = ''https://'' @ (case u of None \<Rightarrow> ''undefined'' | Some h \<Rightarrow> h),
                        call_maxTimeout = MAX_TIMEOUT inp,
                        call_checkIntervalInMilliseconds = CHECK_INTERVAL_IN_MS inp,
                        call_vercelPassword = vercel_password inp,
                        call_path = PATH inp\<rparr>)
               (map url links)\<rparr>)"

text \<open>
  \<open>run\<close>: the inputs are read (\<open>core.getInput('token', { required: true })\<close> throws
  when the token is empty, so the test \<open>!GITHUB_TOKEN\<close> after it never holds; a missing
  \<open>vercel_token\<close> is reported and the run goes on), the commit is found from the pull
  request or from \<open>context.sha\<close>, the deployments are awaited, and the tail above
  follows. An error thrown on the way is caught and reported with
  \<open>core.setFailed(error.message)\<close>. The inputs \<open>environment\<close> and \<open>allow_inactive\<close>
  are read and not used. The value is \<open>None\<close> when \<open>run\<close> never ends.
\<close>

definition run :: "inputs \<Rightarrow> github_context \<Rightarrow> (nat \<Rightarrow> deploy_attempt) \<Rightarrow> run_result option" where
  "run inp ctx env =
     (if token inp = []
      then Some \<lparr>events = [SetFailed ''Input required and not supplied: token''], started = []\<rparr>
      else
       (let ev0 = (if vercel_token inp = []
                   then [SetFailed ''Required field `vercel_token` was not provided'']
                   else []);
            (ev1, sha) =
              (case pull_request ctx of
                 Some PR_NUMBER \<Rightarrow> getShaForPullRequest PR_NUMBER (pulls_answer ctx)
               | None \<Rightarrow>
                   ([], Inr (if context_sha ctx \<noteq> [] then Some (context_sha ctx) else None)))
        in case sha of
             Inl msg \<Rightarrow> Some \<lparr>events = ev0 @ ev1 @ [SetFailed msg], started = []\<rparr>
           | Inr None \<Rightarrow>
               Some \<lparr>events = ev0 @ ev1 @ [SetFailed ''Unable to determine SHA. Exiting...''],
                     started = []\<rparr>
           | Inr (Some sha') \<Rightarrow>
               if sha' = []
               then Some \<lparr>events = ev0 @ ev1 @ [SetFailed ''Unable to determine SHA. Exiting...''],
                           started = []\<rparr>
               else
                (case waitForDeploymentToStart env sha' (MAX_TIMEOUT inp) (CHECK_INTERVAL_IN_MS inp)
                        (vercel_token inp) of
                   None \<Rightarrow> None
                 | Some (urls, ev2) \<Rightarrow>
                     Some \<lparr>events = ev0 @ ev1 @ ev2 @ events (run_urls inp urls),
                           started = started (run_urls inp urls)\<rparr>)))"

section \<open>Concrete scenarios\<close>

text \<open>Inputs with a token and a platform token, no password and the default path.\<close>

definition inputs_with :: "number \<Rightarrow> number \<Rightarrow> inputs" where
  "inputs_with mt ci =
     \<lparr>token = ''t'', vercel_password = [], vercel_token = ''v'', max_timeout = mt,
      path_input = [], check_interval = ci\<rparr>"

text \<open>
  The URL constructor on the inputs of the scenarios: a path that starts with one slash
  is appended to a base \<open>https://host\<close>. The path \<open>https://\<close>, an absolute address
  with no host, makes the constructor throw, and so does a base with no scheme. Inputs
  of other shapes do not occur in the scenarios.
\<close>

definition join_URL :: "string \<Rightarrow> string \<Rightarrow> string option" where
  "join_URL path base =
     (if take 8 base = ''https://'' \<and> take 1 path = ''/'' \<and> take 2 path \<noteq> ''//''
      then Some (base @ path) else None)"

text \<open>A response with a status and no cookie, and three ways a URL can answer the attempts.\<close>

definition status_only :: "nat \<Rightarrow> response" where
  "status_only st = \<lparr>status = st, set_cookie = None\<rparr>"

definition answers_404_then_200 :: "nat \<Rightarrow> url_attempt" where
  "answers_404_then_200 i =
     \<lparr>post_exchange = NoResponse,
      get_exchange = Responded (status_only (if i = 0 then 404 else 200))\<rparr>"

definition always_200 :: "nat \<Rightarrow> url_attempt" where
  "always_200 i = \<lparr>post_exchange = NoResponse, get_exchange = Responded (status_only 200)\<rparr>"


text \<open>
  The end-to-end scenario of the specification: one project \<open>web\<close> whose latest
  deployment is of commit \<open>abc123\<close> and has two aliases; and three ways the platform
  can answer the attempts.
\<close>

definition web_project :: project where
  "web_project =
     \<lparr>latestDeployments =
        [\<lparr>ld_name = ''web'', githubCommitSha = Some ''abc123'',
          automaticAliases = [''web-abc.vercel.app'', ''web-preview.vercel.app'']\<rparr>]\<rparr>"

definition ready_web :: "nat \<Rightarrow> deploy_attempt" where
  "ready_web i =
     \<lparr>deployments_call = Some [\<lparr>dep_name = ''web'', state = ''READY''\<rparr>],
      projects_call = Some [web_project]\<rparr>"

definition always_building :: "nat \<Rightarrow> deploy_attempt" where
  "always_building i =
     \<lparr>deployments_call = Some [\<lparr>dep_name = ''web'', state = ''BUILDING''\<rparr>],
      projects_call = Some [web_project]\<rparr>"

definition building_projects_fail :: "nat \<Rightarrow> deploy_attempt" where
  "building_projects_fail i =
     \<lparr>deployments_call = Some [\<lparr>dep_name = ''web'', state = ''BUILDING''\<rparr>],
      projects_call = None\<rparr>"

text \<open>A push event of a commit.\<close>

definition push_event :: "string \<Rightarrow> github_context" where
  "push_event sha = \<lparr>pull_request = None, context_sha = sha, pulls_answer = PullsThrows []\<rparr>"

section \<open>Properties of the retry budget\<close>





lemma loop_continues_Finite: "loop_continues (Finite k) i \<longleftrightarrow> i < nat \<lceil>k\<rceil>"
proof -
  have "rat_of_nat i < k \<longleftrightarrow> int i < \<lceil>k\<rceil>"
    by (simp add: less_ceiling_iff)
  moreover have "int i < \<lceil>k\<rceil> \<longleftrightarrow> i < nat \<lceil>k\<rceil>"
    by linarith
  ultimately show ?thesis
    by (simp add: loop_continues_def)
qed



lemma loop_continues_Infinity: "loop_continues Infinity i"
  by (simp add: loop_continues_def)

lemma loop_continues_earlier:
  assumes "loop_continues its j" and "i \<le> j"
  shows "loop_continues its i"
proof (cases its)
  case (Finite k)
  with assms show ?thesis by (simp add: loop_continues_Finite)
qed (use assms in \<open>simp_all add: loop_continues_def\<close>)




section \<open>Properties of the inputs\<close>









section \<open>Properties of the bypass token fetcher\<close>

lemma find_first_split:
  "find P xs = Some x \<longleftrightarrow> (\<exists>pre post. xs = pre @ x # post \<and> P x \<and> (\<forall>d\<in>set pre. \<not> P d))"
proof (induction xs)
  case Nil
  then show ?case by simp
next
  case (Cons a xs)
  show ?case
  proof (cases "P a")
    case True
    have "(\<exists>pre post. a # xs = pre @ x # post \<and> P x \<and> (\<forall>d\<in>set pre. \<not> P d)) \<longleftrightarrow> a = x"
    proof
      assume "\<exists>pre post. a # xs = pre @ x # post \<and> P x \<and> (\<forall>d\<in>set pre. \<not> P d)"
      then obtain pre post where s: "a # xs = pre @ x # post" and n: "\<forall>d\<in>set pre. \<not> P d"
        by blast
      show "a = x"
      proof (cases pre)
        case Nil
        with s show ?thesis by simp
      next
        case (Cons b pre')
        with s have "b = a" by simp
        with Cons n True show ?thesis by simp
      qed
    next
      assume "a = x"
      with True have "a # xs = [] @ x # xs \<and> P x \<and> (\<forall>d\<in>set []. \<not> P d)" by simp
      then show "\<exists>pre post. a # xs = pre @ x # post \<and> P x \<and> (\<forall>d\<in>set pre. \<not> P d)"
        by blast
    qed
    with True show ?thesis by simp
  next
    case False
    have "(\<exists>pre post. a # xs = pre @ x # post \<and> P x \<and> (\<forall>d\<in>set pre. \<not> P d))
          \<longleftrightarrow> (\<exists>pre post. xs = pre @ x # post \<and> P x \<and> (\<forall>d\<in>set pre. \<not> P d))"
    proof
      assume "\<exists>pre post. a # xs = pre @ x # post \<and> P x \<and> (\<forall>d\<in>set pre. \<not> P d)"
      then obtain pre post where s: "a # xs = pre @ x # post" and px: "P x"
        and n: "\<forall>d\<in>set pre. \<not> P d"
        by blast
      show "\<exists>pre post. xs = pre @ x # post \<and> P x \<and> (\<forall>d\<in>set pre. \<not> P d)"
      proof (cases pre)
        case Nil
        with s px False show ?thesis by simp
      next
        case (Cons b pre')
        with s n px have "xs = pre' @ x # post \<and> P x \<and> (\<forall>d\<in>set pre'. \<not> P d)" by simp
        then show ?thesis by blast
      qed
    next
      assume "\<exists>pre post. xs = pre @ x # post \<and> P x \<and> (\<forall>d\<in>set pre. \<not> P d)"
      then obtain pre post where "xs = pre @ x # post" "P x" "\<forall>d\<in>set pre. \<not> P d"
        by blast
      with False have "a # xs = (a # pre) @ x # post \<and> P x \<and> (\<forall>d\<in>set (a # pre). \<not> P d)"
        by simp
      then show "\<exists>pre post. a # xs = pre @ x # post \<and> P x \<and> (\<forall>d\<in>set pre. \<not> P d)"
        by blast
    qed
    with False Cons.IH show ?thesis by simp
  qed
qed

lemma getPassword_request: "fst (getPassword u pw x) = [HttpPost u [(''_vercel_password'', pw)]]"
  by (simp add: getPassword_def)

lemma getPassword_Inr_iff:
  "snd (getPassword u pw (Responded r)) = Inr jwt \<longleftrightarrow>
     200 \<le> status r \<and> status r < 307
     \<and> (\<exists>cs c. set_cookie r = Some cs
            \<and> find (\<lambda>cookie. cookie_name cookie = ''_vercel_jwt'') cs = Some c
            \<and> cookie_value c = jwt \<and> jwt \<noteq> [])"
  by (auto simp: getPassword_def axios_def getPassword_validateStatus_def
           split: option.splits)


text \<open>
  Claim C6, as stated, has \<open>getPassword\<close> return the token whenever the header
  contains a \<open>_vercel_jwt\<close> cookie with a non-empty value. \<open>cookies.find\<close> takes the
  first cookie of that name: when its value is empty the function throws, though a
  later cookie of the same name has a value.
\<close>

theorem getPassword_duplicate_cookie_counterexample:
  "snd (getPassword ''https://web-preview.vercel.app'' ''secret''
          (Responded \<lparr>status = 303,
             set_cookie = Some [\<lparr>cookie_name = ''_vercel_jwt'', cookie_value = []\<rparr>,
                                \<lparr>cookie_name = ''_vercel_jwt'', cookie_value = ''abc123''\<rparr>]\<rparr>))
     = Inl (Error ''no vercel JWT in response'')
   \<and> \<lparr>cookie_name = ''_vercel_jwt'', cookie_value = ''abc123''\<rparr>
       \<in> set [\<lparr>cookie_name = ''_vercel_jwt'', cookie_value = []\<rparr>,
               \<lparr>cookie_name = ''_vercel_jwt'', cookie_value = ''abc123''\<rparr>]"
  by (simp add: getPassword_def axios_def getPassword_validateStatus_def)

text \<open>
  Claim C6, amended. \<open>getPassword\<close> sends one request whatever happens (it does not
  retry) and accepts the statuses from \<open>200\<close> up to \<open>306\<close>. On an accepted response it
  returns \<open>jwt\<close> exactly when the first cookie named \<open>_vercel_jwt\<close> of the
  \<open>Set-Cookie\<close> header has the non-empty value \<open>jwt\<close>. It throws
  \<open>no vercel JWT in response\<close> when the header is absent or holds no \<open>_vercel_jwt\<close>
  cookie with a non-empty value; a response with another status and a request with no
  response are errors of the client, which the function lets through.
\<close>

theorem getPassword_token:
  "fst (getPassword u pw x) = [HttpPost u [(''_vercel_password'', pw)]]
   \<and> (getPassword_validateStatus st \<longleftrightarrow> 200 \<le> st \<and> st < 307)
   \<and> (snd (getPassword u pw (Responded r)) = Inr jwt \<longleftrightarrow>
        200 \<le> status r \<and> status r < 307
        \<and> (\<exists>pre c post. set_cookie r = Some (pre @ c # post)
               \<and> (\<forall>d\<in>set pre. cookie_name d \<noteq> ''_vercel_jwt'')
               \<and> cookie_name c = ''_vercel_jwt'' \<and> cookie_value c = jwt \<and> jwt \<noteq> []))
   \<and> (200 \<le> status r \<and> status r < 307
        \<and> (set_cookie r = None
             \<or> (\<exists>cs. set_cookie r = Some cs
                   \<and> (\<forall>c\<in>set cs. cookie_name c = ''_vercel_jwt'' \<longrightarrow> cookie_value c = [])))
        \<longrightarrow> snd (getPassword u pw (Responded r)) = Inl (Error ''no vercel JWT in response''))
   \<and> (\<not> (200 \<le> status r \<and> status r < 307)
        \<longrightarrow> snd (getPassword u pw (Responded r)) = Inl (AxiosResponseError (status r)))
   \<and> snd (getPassword u pw NoResponse) = Inl AxiosRequestError"
proof (intro conjI impI)
  show "fst (getPassword u pw x) = [HttpPost u [(''_vercel_password'', pw)]]"
    by (rule getPassword_request)
  show "getPassword_validateStatus st \<longleftrightarrow> 200 \<le> st \<and> st < 307"
    by (simp add: getPassword_validateStatus_def)
  show "snd (getPassword u pw NoResponse) = Inl AxiosRequestError"
    by (simp add: getPassword_def axios_def)
  show "snd (getPassword u pw (Responded r)) = Inr jwt \<longleftrightarrow>
        200 \<le> status r \<and> status r < 307
        \<and> (\<exists>pre c post. set_cookie r = Some (pre @ c # post)
               \<and> (\<forall>d\<in>set pre. cookie_name d \<noteq> ''_vercel_jwt'')
               \<and> cookie_name c = ''_vercel_jwt'' \<and> cookie_value c = jwt \<and> jwt \<noteq> [])"
    unfolding getPassword_Inr_iff find_first_split by blast
next
  assume "\<not> (200 \<le> status r \<and> status r < 307)"
  then show "snd (getPassword u pw (Responded r)) = Inl (AxiosResponseError (status r))"
    by (auto simp: getPassword_def axios_def getPassword_validateStatus_def)
next
  assume h: "200 \<le> status r \<and> status r < 307
        \<and> (set_cookie r = None
             \<or> (\<exists>cs. set_cookie r = Some cs
                   \<and> (\<forall>c\<in>set cs. cookie_name c = ''_vercel_jwt'' \<longrightarrow> cookie_value c = [])))"
  then have ok: "axios getPassword_validateStatus (Responded r) = Inr r"
    by (simp add: axios_def getPassword_validateStatus_def)
  from h consider "set_cookie r = None"
    | cs where "set_cookie r = Some cs"
        "\<forall>c\<in>set cs. cookie_name c = ''_vercel_jwt'' \<longrightarrow> cookie_value c = []"
    by auto
  then show "snd (getPassword u pw (Responded r)) = Inl (Error ''no vercel JWT in response'')"
  proof cases
    case 1
    with ok show ?thesis by (simp add: getPassword_def)
  next
    case 2
    show ?thesis
    proof (cases "find (\<lambda>cookie. cookie_name cookie = ''_vercel_jwt'') cs")
      case None
      with ok 2 show ?thesis by (simp add: getPassword_def)
    next
      case (Some c)
      then have "c \<in> set cs" "cookie_name c = ''_vercel_jwt''"
        by (auto simp: find_Some_iff)
      with 2 have "cookie_value c = []" by blast
      with ok 2 Some show ?thesis by (simp add: getPassword_def)
    qed
  qed
qed

theorem getPassword_token_witness:
  "snd (getPassword ''https://web-preview.vercel.app'' ''secret''
          (Responded \<lparr>status = 303,
             set_cookie = Some [\<lparr>cookie_name = ''theme'', cookie_value = ''dark''\<rparr>,
                                \<lparr>cookie_name = ''_vercel_jwt'', cookie_value = ''abc123''\<rparr>]\<rparr>))
     = Inr ''abc123''
   \<and> snd (getPassword ''https://web-preview.vercel.app'' ''secret''
          (Responded \<lparr>status = 200, set_cookie = None\<rparr>))
     = Inl (Error ''no vercel JWT in response'')
   \<and> snd (getPassword ''https://web-preview.vercel.app'' ''secret''
          (Responded \<lparr>status = 307, set_cookie = None\<rparr>))
     = Inl (AxiosResponseError 307)"
proof -
  let ?c1 = "\<lparr>cookie_name = ''theme'', cookie_value = ''dark''\<rparr>"
  let ?c2 = "\<lparr>cookie_name = ''_vercel_jwt'', cookie_value = ''abc123''\<rparr>"
  let ?r = "\<lparr>status = 303, set_cookie = Some [?c1, ?c2]\<rparr>"
  have "set_cookie ?r = Some ([?c1] @ ?c2 # [])
        \<and> (\<forall>d\<in>set [?c1]. cookie_name d \<noteq> ''_vercel_jwt'')
        \<and> cookie_name ?c2 = ''_vercel_jwt'' \<and> cookie_value ?c2 = ''abc123'' \<and> ''abc123'' \<noteq> []"
    by simp
  then have ex: "\<exists>pre c post. set_cookie ?r = Some (pre @ c # post)
        \<and> (\<forall>d\<in>set pre. cookie_name d \<noteq> ''_vercel_jwt'')
        \<and> cookie_name c = ''_vercel_jwt'' \<and> cookie_value c = ''abc123'' \<and> ''abc123'' \<noteq> []"
    by blast
  have a: "snd (getPassword ''https://web-preview.vercel.app'' ''secret'' (Responded ?r))
            = Inr ''abc123''"
    using getPassword_token [of "''https://web-preview.vercel.app''" "''secret''" NoResponse 0
            ?r "''abc123''"] ex
    by simp
  have b: "snd (getPassword ''https://web-preview.vercel.app'' ''secret''
              (Responded \<lparr>status = 200, set_cookie = None\<rparr>))
            = Inl (Error ''no vercel JWT in response'')"
    using getPassword_token [of "''https://web-preview.vercel.app''" "''secret''" NoResponse 0
            "\<lparr>status = 200, set_cookie = None\<rparr>" "[]"]
    by simp
  have c: "snd (getPassword ''https://web-preview.vercel.app'' ''secret''
              (Responded \<lparr>status = 307, set_cookie = None\<rparr>))
            = Inl (AxiosResponseError 307)"
    using getPassword_token [of "''https://web-preview.vercel.app''" "''secret''" NoResponse 0
            "\<lparr>status = 307, set_cookie = None\<rparr>" "[]"]
    by simp
  from a b c show ?thesis by blast
qed

section \<open>Properties of the URL health poller\<close>

lemma waitForUrl_loop_success:
  assumes "loop_continues its i"
    and "waitForUrl_try new_URL u pw path (env i) = (evs, Inr v)"
  shows "waitForUrl_loop new_URL env u ms pw path its i tr = Some (tr @ evs)"
  using assms by (subst waitForUrl_loop.simps) simp

lemma waitForUrl_loop_retry:
  assumes "loop_continues its i"
    and "waitForUrl_try new_URL u pw path (env i) = (evs, Inl e)"
  shows "waitForUrl_loop new_URL env u ms pw path its i tr =
         waitForUrl_loop new_URL env u ms pw path its (Suc i) (tr @ evs @ [Wait ms])"
  using assms by (subst waitForUrl_loop.simps) simp





lemma waitForUrl_try_get:
  assumes "(pw = [] \<and> pre = [] \<and> hdrs = [])
           \<or> (pw \<noteq> [] \<and> snd (getPassword u pw (post_exchange x)) = Inr jwt
               \<and> pre = [HttpPost u [(''_vercel_password'', pw)], SetOutput ''vercel_jwt'' (Text jwt)]
               \<and> hdrs = [(''Cookie'', ''_vercel_jwt='' @ jwt)])"
    and "new_URL path u = Some checkUri"
  shows "waitForUrl_try new_URL u pw path x =
           (pre @ [HttpGet checkUri hdrs],
            case axios axios_default_validateStatus (get_exchange x) of
              Inl e \<Rightarrow> Inl e | Inr r \<Rightarrow> Inr ())"
  using assms(1)
proof
  assume "pw = [] \<and> pre = [] \<and> hdrs = []"
  with assms(2) show ?thesis
    by (simp add: waitForUrl_try_def split: sum.splits)
next
  assume h: "pw \<noteq> [] \<and> snd (getPassword u pw (post_exchange x)) = Inr jwt
               \<and> pre = [HttpPost u [(''_vercel_password'', pw)], SetOutput ''vercel_jwt'' (Text jwt)]
               \<and> hdrs = [(''Cookie'', ''_vercel_jwt='' @ jwt)]"
  then have "getPassword u pw (post_exchange x) = ([HttpPost u [(''_vercel_password'', pw)]], Inr jwt)"
    using getPassword_request [of u pw "post_exchange x"]
    by (cases "getPassword u pw (post_exchange x)") simp
  with h assms(2) show ?thesis
    by (simp add: waitForUrl_try_def split: sum.splits)
qed


text \<open>
  Claim C1, as stated, has a \<open>404\<close> response on the first attempt stop the poller with
  success. With no \<open>validateStatus\<close> given, \<open>axios.get\<close> rejects a \<open>404\<close> with an
  error that carries the response; the \<open>catch\<close> block takes it (its \<open>e.response\<close>
  branch), waits and the loop goes on: here the second attempt, answered \<open>200\<close>, ends
  the poll.
\<close>

theorem waitForUrl_404_counterexample:
  "waitForUrl join_URL answers_404_then_200 ''https://web-preview.vercel.app''
     (Finite 4) (Finite 2000) [] ''/''
   = Some [HttpGet ''https://web-preview.vercel.app/'' [], Wait (Finite 2000),
           HttpGet ''https://web-preview.vercel.app/'' []]"
  by (simp add: waitForUrl_def calculateIterations_def waitForUrl_loop.simps loop_continues_def
        waitForUrl_try_def axios_def axios_default_validateStatus_def join_URL_def
        answers_404_then_200_def status_only_def)

text \<open>
  Claim C1, amended. On an attempt of \<open>waitForUrl\<close> whose request gets a response, the
  response counts as success exactly when its status is from \<open>200\<close> up to \<open>299\<close>: the
  poller then stops with no failure reported. A response with any other status, \<open>404\<close>
  included, is treated like a transport error: the poller waits for the interval and
  goes on with the next attempt. (\<open>pre\<close> and \<open>hdrs\<close> are the events and the header of
  the bypass step: none without a password.)
\<close>

theorem waitForUrl_response_status:
  assumes "loop_continues its i"
    and "(pw = [] \<and> pre = [] \<and> hdrs = [])
         \<or> (pw \<noteq> [] \<and> snd (getPassword u pw (post_exchange (env i))) = Inr jwt
             \<and> pre = [HttpPost u [(''_vercel_password'', pw)], SetOutput ''vercel_jwt'' (Text jwt)]
             \<and> hdrs = [(''Cookie'', ''_vercel_jwt='' @ jwt)])"
    and "new_URL path u = Some checkUri"
    and "get_exchange (env i) = Responded r"
  shows "(200 \<le> status r \<and> status r < 300 \<longrightarrow>
            waitForUrl_loop new_URL env u ms pw path its i tr
            = Some (tr @ pre @ [HttpGet checkUri hdrs]))
       \<and> (\<not> (200 \<le> status r \<and> status r < 300) \<longrightarrow>
            waitForUrl_loop new_URL env u ms pw path its i tr
            = waitForUrl_loop new_URL env u ms pw path its (Suc i)
                (tr @ pre @ [HttpGet checkUri hdrs, Wait ms]))"
proof (intro conjI impI)
  have t: "waitForUrl_try new_URL u pw path (env i) =
           (pre @ [HttpGet checkUri hdrs],
            case axios axios_default_validateStatus (get_exchange (env i)) of
              Inl e \<Rightarrow> Inl e | Inr r \<Rightarrow> Inr ())"
    using assms(2,3) by (rule waitForUrl_try_get)
  {
    assume "200 \<le> status r \<and> status r < 300"
    with assms(4) have "waitForUrl_try new_URL u pw path (env i) = (pre @ [HttpGet checkUri hdrs], Inr ())"
      by (simp add: t axios_def axios_default_validateStatus_def)
    from waitForUrl_loop_success [where env = env and i = i, OF assms(1) this]
    show "waitForUrl_loop new_URL env u ms pw path its i tr = Some (tr @ pre @ [HttpGet checkUri hdrs])"
      by simp
  }
  {
    assume "\<not> (200 \<le> status r \<and> status r < 300)"
    with assms(4) have "waitForUrl_try new_URL u pw path (env i)
        = (pre @ [HttpGet checkUri hdrs], Inl (AxiosResponseError (status r)))"
      by (auto simp: t axios_def axios_default_validateStatus_def)
    from waitForUrl_loop_retry [where env = env and i = i, OF assms(1) this]
    show "waitForUrl_loop new_URL env u ms pw path its i tr
            = waitForUrl_loop new_URL env u ms pw path its (Suc i)
                (tr @ pre @ [HttpGet checkUri hdrs, Wait ms])"
      by simp
  }
qed

theorem waitForUrl_response_status_witness:
  "waitForUrl_loop join_URL answers_404_then_200 ''https://web-preview.vercel.app''
      (Finite 2000) [] ''/'' (Finite 2) 0 []
   = waitForUrl_loop join_URL answers_404_then_200 ''https://web-preview.vercel.app''
      (Finite 2000) [] ''/'' (Finite 2) (Suc 0)
      [HttpGet ''https://web-preview.vercel.app/'' [], Wait (Finite 2000)]
   \<and> waitForUrl_loop join_URL answers_404_then_200 ''https://web-preview.vercel.app''
      (Finite 2000) [] ''/'' (Finite 2) (Suc 0)
      [HttpGet ''https://web-preview.vercel.app/'' [], Wait (Finite 2000)]
   = Some [HttpGet ''https://web-preview.vercel.app/'' [], Wait (Finite 2000),
           HttpGet ''https://web-preview.vercel.app/'' []]"
proof -
  let ?u = "''https://web-preview.vercel.app''"
  have c0: "loop_continues (Finite 2) 0" and c1: "loop_continues (Finite 2) (Suc 0)"
    by (simp_all add: loop_continues_def)
  have j: "join_URL ''/'' ?u = Some ''https://web-preview.vercel.app/''"
    by (simp add: join_URL_def)
  have g0: "get_exchange (answers_404_then_200 0) = Responded (status_only 404)"
    and g1: "get_exchange (answers_404_then_200 (Suc 0)) = Responded (status_only 200)"
    by (simp_all add: answers_404_then_200_def)
  note a = waitForUrl_response_status [where new_URL = join_URL and env = answers_404_then_200
      and i = 0 and its = "Finite 2" and pw = "[]" and pre = "[]" and hdrs = "[]" and u = ?u
      and path = "''/''" and checkUri = "''https://web-preview.vercel.app/''"
      and r = "status_only 404" and ms = "Finite 2000" and tr = "[]" and jwt = "[]"]
  note b = waitForUrl_response_status [where new_URL = join_URL and env = answers_404_then_200
      and i = "Suc 0" and its = "Finite 2" and pw = "[]" and pre = "[]" and hdrs = "[]" and u = ?u
      and path = "''/''" and checkUri = "''https://web-preview.vercel.app/''"
      and r = "status_only 200" and ms = "Finite 2000"
      and tr = "[HttpGet ''https://web-preview.vercel.app/'' [], Wait (Finite 2000)]"
      and jwt = "[]"]
  from a c0 j g0 b c1 g1 show ?thesis
    by (simp add: status_only_def)
qed





text \<open>
  With an infinite iteration count (a \<open>max_timeout\<close> of \<open>Infinity\<close>) the loop ends
  only through a successful attempt: when no attempt succeeds, \<open>waitForUrl\<close> never
  returns.
\<close>

lemma waitForUrl_loop_returned:
  assumes "waitForUrl_loop new_URL env u ms pw path its i tr = Some y"
  shows "its = Infinity \<longrightarrow> (\<exists>j. \<not> isl (snd (waitForUrl_try new_URL u pw path (env j))))"
proof (rule waitForUrl_loop.raw_induct
    [where P = "\<lambda>new_URL env u ms pw path its i tr y.
       its = Infinity \<longrightarrow> (\<exists>j. \<not> isl (snd (waitForUrl_try new_URL u pw path (env j))))",
     OF _ assms])
  fix loop :: "(string \<Rightarrow> string \<Rightarrow> string option) \<Rightarrow> (nat \<Rightarrow> url_attempt) \<Rightarrow> string \<Rightarrow> number
     \<Rightarrow> string \<Rightarrow> string \<Rightarrow> number \<Rightarrow> nat \<Rightarrow> event list \<Rightarrow> event list option"
  fix new_URL env u ms pw path its i tr y
  assume IH: "\<And>new_URL env u ms pw path its i tr y.
      loop new_URL env u ms pw path its i tr = Some y \<Longrightarrow>
      its = Infinity \<longrightarrow> (\<exists>j. \<not> isl (snd (waitForUrl_try new_URL u pw path (env j))))"
  assume step: "(if loop_continues its i then
        (case waitForUrl_try new_URL u pw path (env i) of
           (evs, Inl e) \<Rightarrow> loop new_URL env u ms pw path its (Suc i) (tr @ evs @ [Wait ms])
         | (evs, Inr x) \<Rightarrow> Some (tr @ evs))
      else Some (tr @ [SetFailed (''Timeout reached: Unable to connect to '' @ u)])) = Some y"
  show "its = Infinity \<longrightarrow> (\<exists>j. \<not> isl (snd (waitForUrl_try new_URL u pw path (env j))))"
  proof
    assume inf: "its = Infinity"
    obtain evs r where t: "waitForUrl_try new_URL u pw path (env i) = (evs, r)"
      by (cases "waitForUrl_try new_URL u pw path (env i)") simp
    show "\<exists>j. \<not> isl (snd (waitForUrl_try new_URL u pw path (env j)))"
    proof (cases r)
      case (Inl e)
      with step t inf
      have "loop new_URL env u ms pw path its (Suc i) (tr @ evs @ [Wait ms]) = Some y"
        by (simp add: loop_continues_Infinity)
      from IH [OF this] inf show ?thesis by simp
    next
      case (Inr v)
      with t have "\<not> isl (snd (waitForUrl_try new_URL u pw path (env i)))" by simp
      then show ?thesis by blast
    qed
  qed
qed

lemma waitForUrl_never_returns:
  assumes "calculateIterations maxTimeout ms = Infinity"
    and "\<forall>j. isl (snd (waitForUrl_try new_URL u pw path (env j)))"
  shows "waitForUrl new_URL env u maxTimeout ms pw path = None"
proof (cases "waitForUrl new_URL env u maxTimeout ms pw path")
  case (Some y)
  then have "waitForUrl_loop new_URL env u ms pw path Infinity 0 [] = Some y"
    by (simp add: waitForUrl_def assms(1))
  from waitForUrl_loop_returned [OF this] assms(2) show ?thesis by simp
qed simp

text \<open>
  Claim C7: a failure of \<open>new URL(path, url)\<close> should abort the poll at once. The
  constructor throws inside the \<open>try\<close> block, so the \<open>catch\<close> block takes the error
  like a transient one and the guard \<open>if (!checkUri) return\<close> is never reached: with
  the path \<open>https://\<close> the poller sends no request, waits after each of its two
  attempts and reports a timeout.
\<close>

theorem waitForUrl_invalid_url_retried:
  "waitForUrl join_URL always_200 ''https://web-preview.vercel.app''
     (Finite 4) (Finite 2000) [] ''https://''
   = Some [Wait (Finite 2000), Wait (Finite 2000),
           SetFailed ''Timeout reached: Unable to connect to https://web-preview.vercel.app'']"
  by (simp add: waitForUrl_def calculateIterations_def waitForUrl_loop.simps loop_continues_def
        waitForUrl_try_def join_URL_def always_200_def)

section \<open>Properties of the deployment resolution poller\<close>

lemma deploy_loop_return:
  assumes "loop_continues its i"
    and "waitForDeploymentToStart_try sha ms tok (env i) = (evs, Returned links)"
  shows "waitForDeploymentToStart_loop env sha ms tok its i tr = Some (Some links, tr @ evs)"
  using assms by (subst waitForDeploymentToStart_loop.simps) simp

lemma deploy_loop_retry:
  assumes "loop_continues its i"
    and "waitForDeploymentToStart_try sha ms tok (env i) = (evs, r)"
    and "r = Completed \<or> r = Caught"
  shows "waitForDeploymentToStart_loop env sha ms tok its i tr =
         waitForDeploymentToStart_loop env sha ms tok its (Suc i) (tr @ evs @ [Wait ms])"
  using assms by (subst waitForDeploymentToStart_loop.simps) auto


lemma not_Returned:
  "(\<forall>links. r \<noteq> Returned links) \<longleftrightarrow> r = Completed \<or> r = Caught"
  by (cases r) auto


lemma deploy_loop_reaches:
  assumes "loop_continues its j"
    and "i \<le> j"
    and "\<forall>a. i \<le> a \<and> a < j \<longrightarrow>
             (\<forall>links. snd (waitForDeploymentToStart_try sha ms tok (env a)) \<noteq> Returned links)"
    and "waitForDeploymentToStart_try sha ms tok (env j) = (evs, Returned links)"
  shows "waitForDeploymentToStart_loop env sha ms tok its i tr =
         Some (Some links,
               tr @ concat (map (\<lambda>a. fst (waitForDeploymentToStart_try sha ms tok (env a))
                                       @ [Wait ms]) [i..<j]) @ evs)"
  using assms(2,3)
proof (induction "j - i" arbitrary: i tr)
  case 0
  then have "i = j" by simp
  then show ?case
    using deploy_loop_return [where env = env and i = j, OF assms(1) assms(4)] by simp
next
  case (Suc d)
  then have lt: "i < j" by simp
  then have cont: "loop_continues its i"
    using assms(1) loop_continues_earlier by (meson less_imp_le)
  obtain es r where t: "waitForDeploymentToStart_try sha ms tok (env i) = (es, r)"
    by (cases "waitForDeploymentToStart_try sha ms tok (env i)") simp
  from Suc.prems lt
  have "\<forall>links. snd (waitForDeploymentToStart_try sha ms tok (env i)) \<noteq> Returned links"
    by simp
  with t have r: "r = Completed \<or> r = Caught"
    by (simp add: not_Returned)
  have d: "d = j - Suc i" using Suc.hyps(2) by simp
  have le: "Suc i \<le> j" using lt by simp
  have rest: "\<forall>a. Suc i \<le> a \<and> a < j \<longrightarrow>
             (\<forall>links. snd (waitForDeploymentToStart_try sha ms tok (env a)) \<noteq> Returned links)"
    using Suc.prems by simp
  have up: "[i..<j] = i # [Suc i..<j]" using lt by (simp add: upt_conv_Cons)
  show ?case
    unfolding deploy_loop_retry [where env = env and i = i, OF cont t r]
      Suc.hyps(1) [OF d le rest] up
    by (simp add: t)
qed

lemma try_in_progress_projects:
  assumes "deployments_call x = Some ds" and "\<exists>d\<in>set ds. in_progress d"
    and "projects_call x = Some ps"
  shows "waitForDeploymentToStart_try sha ms tok x =
           ([HttpGet deployments_url [(''Authorization'', ''Bearer '' @ tok)],
             HttpGet projects_url [(''Authorization'', ''Bearer '' @ tok)],
             Wait ms], Completed)"
  using assms by (auto simp: waitForDeploymentToStart_try_def list_ex_iff Let_def)

lemma try_in_progress_projects_fail:
  assumes "deployments_call x = Some ds" and "projects_call x = None"
  shows "waitForDeploymentToStart_try sha ms tok x =
           ([HttpGet deployments_url [(''Authorization'', ''Bearer '' @ tok)],
             HttpGet projects_url [(''Authorization'', ''Bearer '' @ tok)]], Caught)"
  using assms by (simp add: waitForDeploymentToStart_try_def Let_def)


lemma try_ready:
  assumes "deployments_call x = Some ds" and "\<not> (\<exists>d\<in>set ds. in_progress d)"
    and "projects_call x = Some ps"
  shows "waitForDeploymentToStart_try sha ms tok x =
           ([HttpGet deployments_url [(''Authorization'', ''Bearer '' @ tok)],
             HttpGet projects_url [(''Authorization'', ''Bearer '' @ tok)]],
            Returned (finalLinks sha ps))"
  using assms by (auto simp: waitForDeploymentToStart_try_def list_ex_iff Let_def)

lemma finalLinks_filter:
  "finalLinks sha ps =
     map toAdd (filter (\<lambda>d. githubCommitSha d = Some sha) (concat (map latestDeployments ps)))"
  by (induction ps) (simp_all add: finalLinks_def)


text \<open>
  Claim C3. Let attempt \<open>j\<close> be within the budget, let no earlier attempt have
  returned, and let attempt \<open>j\<close> fetch both listings and find no deployment of the
  team in progress. Then \<open>waitForDeploymentToStart\<close> returns \<open>finalLinks\<close> of the
  project listing of that attempt: one target for each latest-deployment record, over
  all projects in order, whose commit SHA is the target SHA, with the last of the
  record's \<open>automaticAliases\<close> as \<open>url\<close> (\<open>undefined\<close> when there is none) and the
  record's name as \<open>name\<close>.
\<close>

theorem waitForDeploymentToStart_resolves:
  assumes "loop_continues (calculateIterations maxTimeout ms) j"
    and "\<forall>i<j. \<forall>links. snd (waitForDeploymentToStart_try sha ms tok (env i)) \<noteq> Returned links"
    and "deployments_call (env j) = Some ds"
    and "\<not> (\<exists>d\<in>set ds. in_progress d)"
    and "projects_call (env j) = Some ps"
  shows "(\<exists>tr. waitForDeploymentToStart env sha maxTimeout ms tok
                 = Some (Some (finalLinks sha ps), tr))
       \<and> finalLinks sha ps =
           map (\<lambda>d. \<lparr>url = (if automaticAliases d = [] then None
                            else Some (last (automaticAliases d))),
                     name = ld_name d\<rparr>)
             (filter (\<lambda>d. githubCommitSha d = Some sha) (concat (map latestDeployments ps)))"
proof
  have t: "waitForDeploymentToStart_try sha ms tok (env j) =
           ([HttpGet deployments_url [(''Authorization'', ''Bearer '' @ tok)],
             HttpGet projects_url [(''Authorization'', ''Bearer '' @ tok)]],
            Returned (finalLinks sha ps))"
    using assms(3,4,5) by (rule try_ready)
  have e: "\<forall>a. 0 \<le> a \<and> a < j \<longrightarrow>
             (\<forall>links. snd (waitForDeploymentToStart_try sha ms tok (env a)) \<noteq> Returned links)"
    using assms(2) by simp
  have z: "0 \<le> j" by simp
  show "\<exists>tr. waitForDeploymentToStart env sha maxTimeout ms tok
                 = Some (Some (finalLinks sha ps), tr)"
    unfolding waitForDeploymentToStart_def
    using deploy_loop_reaches [where env = env and i = 0 and j = j and tr = "[]",
            OF assms(1) z e t]
    by simp
  show "finalLinks sha ps =
           map (\<lambda>d. \<lparr>url = (if automaticAliases d = [] then None
                            else Some (last (automaticAliases d))),
                     name = ld_name d\<rparr>)
             (filter (\<lambda>d. githubCommitSha d = Some sha) (concat (map latestDeployments ps)))"
    unfolding finalLinks_filter by (simp add: toAdd_def)
qed

theorem waitForDeploymentToStart_resolves_witness:
  "(\<exists>tr. waitForDeploymentToStart ready_web ''abc123'' (Finite 4) (Finite 2000) ''v''
           = Some (Some (finalLinks ''abc123'' [web_project]), tr))
   \<and> finalLinks ''abc123'' [web_project]
       = [\<lparr>url = Some ''web-preview.vercel.app'', name = ''web''\<rparr>]"
proof -
  have c: "loop_continues (calculateIterations (Finite 4) (Finite 2000)) 0"
    by (simp add: calculateIterations_def loop_continues_def)
  have e: "\<forall>i<0::nat. \<forall>links.
             snd (waitForDeploymentToStart_try ''abc123'' (Finite 2000) ''v'' (ready_web i))
             \<noteq> Returned links"
    by simp
  have d: "deployments_call (ready_web 0) = Some [\<lparr>dep_name = ''web'', state = ''READY''\<rparr>]"
    and p: "projects_call (ready_web 0) = Some [web_project]"
    by (simp_all add: ready_web_def)
  have n: "\<not> (\<exists>d\<in>set [\<lparr>dep_name = ''web'', state = ''READY''\<rparr>]. in_progress d)"
    by (simp add: in_progress_def)
  note w = waitForDeploymentToStart_resolves [where env = ready_web and j = 0 and sha = "''abc123''"
      and tok = "''v''", OF c e d n p]
  from w have a: "\<exists>tr. waitForDeploymentToStart ready_web ''abc123'' (Finite 4) (Finite 2000) ''v''
           = Some (Some (finalLinks ''abc123'' [web_project]), tr)"
    by blast
  from w have "finalLinks ''abc123'' [web_project] =
           map (\<lambda>d. \<lparr>url = (if automaticAliases d = [] then None
                            else Some (last (automaticAliases d))),
                     name = ld_name d\<rparr>)
             (filter (\<lambda>d. githubCommitSha d = Some ''abc123'')
                (concat (map latestDeployments [web_project])))"
    by blast
  then have b: "finalLinks ''abc123'' [web_project]
       = [\<lparr>url = Some ''web-preview.vercel.app'', name = ''web''\<rparr>]"
    by (simp add: web_project_def)
  from a b show ?thesis by blast
qed




text \<open>
  With an infinite iteration count \<open>waitForDeploymentToStart\<close> returns only through
  an attempt that returns links: when there is none, it never returns.
\<close>

lemma waitForDeploymentToStart_loop_returned:
  assumes "waitForDeploymentToStart_loop env sha ms tok its i tr = Some y"
  shows "its = Infinity \<longrightarrow>
           (\<exists>j links. snd (waitForDeploymentToStart_try sha ms tok (env j)) = Returned links)"
proof (rule waitForDeploymentToStart_loop.raw_induct
    [where P = "\<lambda>env sha ms tok its i tr y.
       its = Infinity \<longrightarrow>
         (\<exists>j links. snd (waitForDeploymentToStart_try sha ms tok (env j)) = Returned links)",
     OF _ assms])
  fix loop :: "(nat \<Rightarrow> deploy_attempt) \<Rightarrow> string \<Rightarrow> number \<Rightarrow> string \<Rightarrow> number \<Rightarrow> nat \<Rightarrow> event list
     \<Rightarrow> (resolved_target list option \<times> event list) option"
  fix env sha ms tok its i tr y
  assume IH: "\<And>env sha ms tok its i tr y.
      loop env sha ms tok its i tr = Some y \<Longrightarrow>
      its = Infinity \<longrightarrow>
        (\<exists>j links. snd (waitForDeploymentToStart_try sha ms tok (env j)) = Returned links)"
  assume step: "(if loop_continues its i then
        (case waitForDeploymentToStart_try sha ms tok (env i) of
           (evs, Returned links) \<Rightarrow> Some (Some links, tr @ evs)
         | (evs, _) \<Rightarrow> loop env sha ms tok its (Suc i) (tr @ evs @ [Wait ms]))
      else Some (None, tr)) = Some y"
  show "its = Infinity \<longrightarrow>
          (\<exists>j links. snd (waitForDeploymentToStart_try sha ms tok (env j)) = Returned links)"
  proof
    assume inf: "its = Infinity"
    obtain evs r where t: "waitForDeploymentToStart_try sha ms tok (env i) = (evs, r)"
      by (cases "waitForDeploymentToStart_try sha ms tok (env i)") simp
    show "\<exists>j links. snd (waitForDeploymentToStart_try sha ms tok (env j)) = Returned links"
    proof (cases r)
      case (Returned links)
      with t have "snd (waitForDeploymentToStart_try sha ms tok (env i)) = Returned links"
        by simp
      then show ?thesis by blast
    next
      case Completed
      with step t inf
      have "loop env sha ms tok its (Suc i) (tr @ evs @ [Wait ms]) = Some y"
        by (simp add: loop_continues_Infinity)
      from IH [OF this] inf show ?thesis by simp
    next
      case Caught
      with step t inf
      have "loop env sha ms tok its (Suc i) (tr @ evs @ [Wait ms]) = Some y"
        by (simp add: loop_continues_Infinity)
      from IH [OF this] inf show ?thesis by simp
    qed
  qed
qed

lemma waitForDeploymentToStart_never_returns:
  assumes "calculateIterations maxTimeout ms = Infinity"
    and "\<forall>j links. snd (waitForDeploymentToStart_try sha ms tok (env j)) \<noteq> Returned links"
  shows "waitForDeploymentToStart env sha maxTimeout ms tok = None"
proof (cases "waitForDeploymentToStart env sha maxTimeout ms tok")
  case (Some y)
  then have "waitForDeploymentToStart_loop env sha ms tok Infinity 0 [] = Some y"
    by (simp add: waitForDeploymentToStart_def assms(1))
  from waitForDeploymentToStart_loop_returned [OF this] assms(2) show ?thesis by simp
qed simp

text \<open>
  Claim C9, as stated, has every attempt that sees a deployment in progress sleep
  twice. The project listing is fetched after the deployments are classified; when
  that call throws, the attempt ends in the \<open>catch\<close> block, before the \<open>wait\<close> of the
  in-progress branch, and sleeps once: here one \<open>wait\<close> lies between the two attempts.
\<close>

theorem waitForDeploymentToStart_single_wait_counterexample:
  "waitForDeploymentToStart building_projects_fail ''abc123'' (Finite 4) (Finite 2000) ''v''
   = Some (None,
       [HttpGet deployments_url [(''Authorization'', ''Bearer v'')],
        HttpGet projects_url [(''Authorization'', ''Bearer v'')],
        Wait (Finite 2000),
        HttpGet deployments_url [(''Authorization'', ''Bearer v'')],
        HttpGet projects_url [(''Authorization'', ''Bearer v'')],
        Wait (Finite 2000)])
   \<and> deployments_call (building_projects_fail 0)
       = Some [\<lparr>dep_name = ''web'', state = ''BUILDING''\<rparr>]
   \<and> in_progress \<lparr>dep_name = ''web'', state = ''BUILDING''\<rparr>"
  by (simp add: waitForDeploymentToStart_def calculateIterations_def
        waitForDeploymentToStart_loop.simps loop_continues_def waitForDeploymentToStart_try_def
        building_projects_fail_def in_progress_def Let_def)

text \<open>
  Claim C9, amended. An attempt that sees a deployment in progress and fetches the
  project listing sleeps twice before the next attempt, once in the in-progress branch
  and once at the end of the loop body: two intervals. When the project listing throws
  in such an attempt, it sleeps once.
\<close>

theorem waitForDeploymentToStart_waits:
  assumes "loop_continues its i"
    and "deployments_call (env i) = Some ds"
    and "\<exists>d\<in>set ds. in_progress d"
  shows "(\<forall>ps. projects_call (env i) = Some ps \<longrightarrow>
            waitForDeploymentToStart_loop env sha ms tok its i tr =
            waitForDeploymentToStart_loop env sha ms tok its (Suc i)
              (tr @ [HttpGet deployments_url [(''Authorization'', ''Bearer '' @ tok)],
                     HttpGet projects_url [(''Authorization'', ''Bearer '' @ tok)],
                     Wait ms, Wait ms]))
       \<and> (projects_call (env i) = None \<longrightarrow>
            waitForDeploymentToStart_loop env sha ms tok its i tr =
            waitForDeploymentToStart_loop env sha ms tok its (Suc i)
              (tr @ [HttpGet deployments_url [(''Authorization'', ''Bearer '' @ tok)],
                     HttpGet projects_url [(''Authorization'', ''Bearer '' @ tok)],
                     Wait ms]))"
proof (intro conjI allI impI)
  fix ps
  assume "projects_call (env i) = Some ps"
  with assms(2,3) have t: "waitForDeploymentToStart_try sha ms tok (env i) =
           ([HttpGet deployments_url [(''Authorization'', ''Bearer '' @ tok)],
             HttpGet projects_url [(''Authorization'', ''Bearer '' @ tok)],
             Wait ms], Completed)"
    by (rule try_in_progress_projects)
  have "Completed = Completed \<or> Completed = Caught" by simp
  from deploy_loop_retry [where env = env and i = i, OF assms(1) t this]
  show "waitForDeploymentToStart_loop env sha ms tok its i tr =
            waitForDeploymentToStart_loop env sha ms tok its (Suc i)
              (tr @ [HttpGet deployments_url [(''Authorization'', ''Bearer '' @ tok)],
                     HttpGet projects_url [(''Authorization'', ''Bearer '' @ tok)],
                     Wait ms, Wait ms])"
    by simp
next
  assume "projects_call (env i) = None"
  with assms(2) have t: "waitForDeploymentToStart_try sha ms tok (env i) =
           ([HttpGet deployments_url [(''Authorization'', ''Bearer '' @ tok)],
             HttpGet projects_url [(''Authorization'', ''Bearer '' @ tok)]], Caught)"
    by (rule try_in_progress_projects_fail)
  have "Caught = Completed \<or> Caught = Caught" by simp
  from deploy_loop_retry [where env = env and i = i, OF assms(1) t this]
  show "waitForDeploymentToStart_loop env sha ms tok its i tr =
            waitForDeploymentToStart_loop env sha ms tok its (Suc i)
              (tr @ [HttpGet deployments_url [(''Authorization'', ''Bearer '' @ tok)],
                     HttpGet projects_url [(''Authorization'', ''Bearer '' @ tok)],
                     Wait ms])"
    by simp
qed

theorem waitForDeploymentToStart_waits_witness:
  "waitForDeploymentToStart_loop always_building ''abc123'' (Finite 2000) ''v'' (Finite 2) 0 []
   = waitForDeploymentToStart_loop always_building ''abc123'' (Finite 2000) ''v'' (Finite 2) (Suc 0)
       [HttpGet deployments_url [(''Authorization'', ''Bearer v'')],
        HttpGet projects_url [(''Authorization'', ''Bearer v'')],
        Wait (Finite 2000), Wait (Finite 2000)]
   \<and> waitForDeploymentToStart_loop building_projects_fail ''abc123'' (Finite 2000) ''v'' (Finite 2) 0 []
   = waitForDeploymentToStart_loop building_projects_fail ''abc123'' (Finite 2000) ''v'' (Finite 2)
       (Suc 0)
       [HttpGet deployments_url [(''Authorization'', ''Bearer v'')],
        HttpGet projects_url [(''Authorization'', ''Bearer v'')],
        Wait (Finite 2000)]"
proof -
  have c: "loop_continues (Finite 2) 0"
    by (simp add: loop_continues_def)
  have d1: "deployments_call (always_building 0) = Some [\<lparr>dep_name = ''web'', state = ''BUILDING''\<rparr>]"
    and p1: "projects_call (always_building 0) = Some [web_project]"
    and d2: "deployments_call (building_projects_fail 0)
             = Some [\<lparr>dep_name = ''web'', state = ''BUILDING''\<rparr>]"
    and p2: "projects_call (building_projects_fail 0) = None"
    by (simp_all add: always_building_def building_projects_fail_def)
  have b: "\<exists>d\<in>set [\<lparr>dep_name = ''web'', state = ''BUILDING''\<rparr>]. in_progress d"
    by (simp add: in_progress_def)
  note a1 = waitForDeploymentToStart_waits [where env = always_building and i = 0
      and sha = "''abc123''" and ms = "Finite 2000" and tok = "''v''" and tr = "[]", OF c d1 b]
  note a2 = waitForDeploymentToStart_waits [where env = building_projects_fail and i = 0
      and sha = "''abc123''" and ms = "Finite 2000" and tok = "''v''" and tr = "[]", OF c d2 b]
  from a1 p1 a2 p2 show ?thesis
    by simp
qed

section \<open>Properties of the orchestrator\<close>

text \<open>
  Claim C2: an empty result of the poller should fail the step like a timeout. The
  test is \<open>!urls\<close>, and an empty array is truthy: with no deployment of the commit
  (here \<open>def456\<close>) \<open>run\<close> publishes the empty \<open>urls\<close> output and reports no failure,
  while on a timeout (\<open>null\<close>) it reports \<open>no vercel deployment found, exiting...\<close>
  and publishes nothing.
\<close>

theorem run_empty_result_published:
  "run (inputs_with (Finite 4) (Finite 2)) (push_event ''def456'') ready_web
   = Some \<lparr>events = [HttpGet deployments_url [(''Authorization'', ''Bearer v'')],
                     HttpGet projects_url [(''Authorization'', ''Bearer v'')],
                     SetOutput ''urls'' (Targets [])],
           started = []\<rparr>
   \<and> run (inputs_with (Finite 2) (Finite 2)) (push_event ''def456'') building_projects_fail
   = Some \<lparr>events = [HttpGet deployments_url [(''Authorization'', ''Bearer v'')],
                     HttpGet projects_url [(''Authorization'', ''Bearer v'')],
                     Wait (Finite 2000),
                     SetFailed ''no vercel deployment found, exiting...''],
           started = []\<rparr>"
  by (simp add: run_def run_urls_def inputs_with_def push_event_def MAX_TIMEOUT_def
        CHECK_INTERVAL_IN_MS_def js_or_def waitForDeploymentToStart_def calculateIterations_def
        waitForDeploymentToStart_loop.simps loop_continues_def waitForDeploymentToStart_try_def
        ready_web_def building_projects_fail_def web_project_def in_progress_def finalLinks_def
        Let_def)

end
